theory Spec2Isabelle
  imports Main "HOL-Library.Multiset"
begin

section \<open>Blogicum: the views of \<^verbatim>\<open>blog/views.py\<close>\<close>

text \<open>
  The view handlers of the blog are embedded as functions from the database state (and
  the request) to a response and the new database state. The time of the request
  (\<^verbatim>\<open>timezone.now()\<close>) is the parameter \<open>now\<close>; Python's \<^verbatim>\<open>int()\<close> on a
  query-string value is the parameter \<open>int_conv\<close> (\<open>None\<close> where it raises ValueError);
  the forms of \<^verbatim>\<open>blog/forms.py\<close> are the parameter \<open>F\<close>.
\<close>

subsection \<open>Data model\<close>

text \<open>
  Modelled from the spec: \<^verbatim>\<open>blog/models.py\<close> is not among the sources. The records hold
  the fields the views read: a foreign key is the primary key of the row it points to,
  a nullable one is an option.
\<close>

record user =
  user_id :: nat
  username :: string

record category =
  cat_id :: nat
  slug :: string
  cat_is_published :: bool

record post =
  post_id :: nat
  title :: string
  post_text :: string
  pub_date :: int
  is_published :: bool
  author :: nat
  post_category :: "nat option"
  location :: "nat option"

record comment =
  comment_id :: nat
  comment_text :: string
  comment_author :: nat
  comment_post :: nat

text \<open>
  The tables of the relational store, each in the order the database returns its rows,
  and the last value handed out by the key sequence of the two tables the views insert into
  (an \<^verbatim>\<open>AutoField\<close> never hands out a key twice, also after the row is deleted).
\<close>

record db =
  users :: "user list"
  categories :: "category list"
  posts :: "post list"
  comments :: "comment list"
  post_id_seq :: nat
  comment_id_seq :: nat

subsection \<open>Requests and responses\<close>

type_synonym fields = "(string \<times> string) list"

text \<open>
  \<open>req_user\<close> is \<^verbatim>\<open>request.user\<close>: \<open>None\<close> for the anonymous user. \<open>req_GET\<close>,
  \<open>req_POST\<close> and \<open>req_FILES\<close> are the key/value pairs in the order they were sent.
\<close>

record request =
  req_user :: "user option"
  req_method :: string
  req_GET :: fields
  req_POST :: fields
  req_FILES :: fields

text \<open>\<^verbatim>\<open>QueryDict.get(key)\<close>: the last value sent for the key, \<open>None\<close> when there is none.\<close>

definition querydict_get :: "fields \<Rightarrow> string \<Rightarrow> string option" where
  "querydict_get q k =
     (case filter (\<lambda>kv. fst kv = k) q of
        [] \<Rightarrow> None
      | kv # kvs \<Rightarrow> Some (snd (last (kv # kvs))))"

text \<open>\<^verbatim>\<open>x or None\<close> on a dictionary: an empty one is falsy.\<close>

definition or_None :: "fields \<Rightarrow> fields option" where
  "or_None q = (if q = [] then None else Some q)"

text \<open>A form object: the data and files it was bound to, and the instance it edits.\<close>

datatype 'a form = Form (form_data: "fields option") (form_files: "fields option")
  (form_instance: "'a option")

text \<open>
  Modelled from the spec: \<^verbatim>\<open>blog/forms.py\<close> is not among the sources. Each form is
  its cleaning function: from the submitted data (and files) and the instance being
  edited (\<open>None\<close> for a new record) to the instance with the cleaned values written in, or
  \<open>None\<close> when validation finds an error.
\<close>

record forms =
  PostForm_clean :: "fields \<Rightarrow> fields \<Rightarrow> post option \<Rightarrow> post option"
  CommentForm_clean :: "fields \<Rightarrow> comment option \<Rightarrow> comment option"
  UserForm_clean :: "fields \<Rightarrow> user option \<Rightarrow> user option"

definition is_bound :: "'a form \<Rightarrow> bool" where
  "is_bound f = (form_data f \<noteq> None \<or> form_files f \<noteq> None)"

definition data_of :: "fields option \<Rightarrow> fields" where
  "data_of d = (case d of None \<Rightarrow> [] | Some q \<Rightarrow> q)"

text \<open>
  The instance a valid form would save: \<open>None\<close> is \<^verbatim>\<open>form.is_valid() == False\<close>, which
  is the case of every unbound form.
\<close>

definition PostForm_cleaned :: "forms \<Rightarrow> post form \<Rightarrow> post option" where
  "PostForm_cleaned F f =
     (if is_bound f
      then PostForm_clean F (data_of (form_data f)) (data_of (form_files f)) (form_instance f)
      else None)"

definition CommentForm_cleaned :: "forms \<Rightarrow> comment form \<Rightarrow> comment option" where
  "CommentForm_cleaned F f =
     (if is_bound f
      then CommentForm_clean F (data_of (form_data f)) (form_instance f)
      else None)"

definition UserForm_cleaned :: "forms \<Rightarrow> user form \<Rightarrow> user option" where
  "UserForm_cleaned F f =
     (if is_bound f
      then UserForm_clean F (data_of (form_data f)) (form_instance f)
      else None)"

subsection \<open>Query layer\<close>

text \<open>
  A row of a post queryset: the post and, once the queryset is annotated, its
  \<^verbatim>\<open>comment_count\<close>.
\<close>

type_synonym row = "post \<times> nat option"

text \<open>The keyword lookups the views pass to \<^verbatim>\<open>filter\<close>.\<close>

datatype lookup =
    Is_published bool
  | Category__is_published bool
  | Pub_date__lte int
  | Author_eq nat
  | Category_eq nat

text \<open>
  A lookup through the category joins the category table: a post without a category,
  or whose category row is missing, matches no value.
\<close>

fun lookup_holds :: "db \<Rightarrow> lookup \<Rightarrow> post \<Rightarrow> bool" where
  "lookup_holds d (Is_published b) p = (is_published p = b)"
| "lookup_holds d (Category__is_published b) p =
     (case post_category p of
        None \<Rightarrow> False
      | Some k \<Rightarrow> list_ex (\<lambda>c. cat_id c = k \<and> cat_is_published c = b) (categories d))"
| "lookup_holds d (Pub_date__lte t) p = (pub_date p \<le> t)"
| "lookup_holds d (Author_eq u) p = (author p = u)"
| "lookup_holds d (Category_eq k) p = (post_category p = Some k)"

definition Post_objects :: "db \<Rightarrow> row list" where
  "Post_objects d = map (\<lambda>p. (p, None)) (posts d)"

definition filter_qs :: "db \<Rightarrow> lookup list \<Rightarrow> row list \<Rightarrow> row list" where
  "filter_qs d kwargs rows = filter (\<lambda>r. list_all (\<lambda>k. lookup_holds d k (fst r)) kwargs) rows"

text \<open>\<^verbatim>\<open>annotate(comment_count=Count('comments'))\<close>\<close>

definition annotate_comment_count :: "db \<Rightarrow> row list \<Rightarrow> row list" where
  "annotate_comment_count d rows =
     map (\<lambda>r. (fst r, Some (length (filter (\<lambda>c. comment_post c = post_id (fst r)) (comments d)))))
       rows"

text \<open>
  \<^verbatim>\<open>order_by('-pub_date')\<close>: the rows in descending order of publication date. The
  order of rows of equal date is the database engine's choice; the function has to pick one
  such order, and nothing proved below says which.
\<close>

definition order_by_pub_date_desc :: "row list \<Rightarrow> row list" where
  "order_by_pub_date_desc rows = sort_key (\<lambda>r. - pub_date (fst r)) rows"

text \<open>
  \<^verbatim>\<open>select_related\<close> of the three foreign keys adds columns and drops no row (the
  nullable ones are outer joins), so it does not appear.
\<close>

definition get_posts :: "db \<Rightarrow> lookup list \<Rightarrow> row list" where
  "get_posts d kwargs =
     order_by_pub_date_desc (filter_qs d kwargs (annotate_comment_count d (Post_objects d)))"

definition get_filtered_posts_qs :: "db \<Rightarrow> int \<Rightarrow> row list" where
  "get_filtered_posts_qs d now =
     filter_qs d [Is_published True, Category__is_published True, Pub_date__lte now]
       (Post_objects d)"

subsection \<open>Pagination\<close>

definition NUMBER_OF_PAGINATOR_PAGES :: nat where
  "NUMBER_OF_PAGINATOR_PAGES = 10"

text \<open>
  Django's \<^verbatim>\<open>Paginator\<close> with its defaults (no orphans, an empty first page allowed),
  after \<^verbatim>\<open>django/core/paginator.py\<close>.
\<close>

record 'a paginator =
  pg_object_list :: "'a list"
  per_page :: nat

record 'a page =
  object_list :: "'a list"
  number :: int
  page_paginator :: "'a paginator"

datatype paginator_error = PageNotAnInteger | EmptyPage | ZeroDivisionError

datatype page_arg = PyNone | PyStr string | PyInt int

text \<open>\<^verbatim>\<open>ceil(max(1, count) / per_page)\<close>\<close>

definition num_pages :: "'a paginator \<Rightarrow> paginator_error + int" where
  "num_pages pg =
     (let hits = max 1 (length (pg_object_list pg)) in
      if per_page pg = 0 then Inl ZeroDivisionError
      else Inr (int ((hits + per_page pg - 1) div per_page pg)))"

definition validate_number ::
  "(string \<Rightarrow> int option) \<Rightarrow> 'a paginator \<Rightarrow> page_arg \<Rightarrow> paginator_error + int" where
  "validate_number int_conv pg a =
     (case (case a of PyNone \<Rightarrow> None | PyStr s \<Rightarrow> int_conv s | PyInt n \<Rightarrow> Some n) of
        None \<Rightarrow> Inl PageNotAnInteger
      | Some n \<Rightarrow>
          if n < 1 then Inl EmptyPage
          else (case num_pages pg of
                  Inl e \<Rightarrow> Inl e
                | Inr np \<Rightarrow> if n > np then Inl EmptyPage else Inr n))"

text \<open>\<^verbatim>\<open>Paginator.page\<close>: the slice \<^verbatim>\<open>object_list[bottom:top]\<close>.\<close>

definition page_of ::
  "(string \<Rightarrow> int option) \<Rightarrow> 'a paginator \<Rightarrow> page_arg \<Rightarrow> paginator_error + 'a page" where
  "page_of int_conv pg a =
     (case validate_number int_conv pg a of
        Inl e \<Rightarrow> Inl e
      | Inr n \<Rightarrow>
          (let bottom = nat (n - 1) * per_page pg;
               top = bottom + per_page pg;
               top = (if top \<ge> length (pg_object_list pg) then length (pg_object_list pg) else top)
           in Inr \<lparr>object_list = take (top - bottom) (drop bottom (pg_object_list pg)),
                   number = n, page_paginator = pg\<rparr>))"

text \<open>\<^verbatim>\<open>Paginator.get_page\<close>: the two exceptions of validation are caught.\<close>

definition get_page ::
  "(string \<Rightarrow> int option) \<Rightarrow> 'a paginator \<Rightarrow> page_arg \<Rightarrow> paginator_error + 'a page" where
  "get_page int_conv pg a =
     (case validate_number int_conv pg a of
        Inl PageNotAnInteger \<Rightarrow> page_of int_conv pg (PyInt 1)
      | Inl EmptyPage \<Rightarrow>
          (case num_pages pg of
             Inl e \<Rightarrow> Inl e
           | Inr np \<Rightarrow> page_of int_conv pg (PyInt np))
      | Inl ZeroDivisionError \<Rightarrow> Inl ZeroDivisionError
      | Inr n \<Rightarrow> page_of int_conv pg (PyInt n))"

definition get_paginated_page ::
  "(string \<Rightarrow> int option) \<Rightarrow> request \<Rightarrow> 'a list \<Rightarrow> nat \<Rightarrow> paginator_error + 'a page" where
  "get_paginated_page int_conv request queryset number_of_pages =
     (let paginator = \<lparr>pg_object_list = queryset, per_page = number_of_pages\<rparr>;
          page_number = (case querydict_get (req_GET request) ''page'' of
                           None \<Rightarrow> PyNone | Some s \<Rightarrow> PyStr s)
      in get_page int_conv paginator page_number)"

subsection \<open>Responses\<close>

text \<open>
  The two messages a 404 of these views carries: the one \<^verbatim>\<open>post_detail\<close> raises itself
  and the one of \<^verbatim>\<open>get_object_or_404\<close>.
\<close>

datatype not_found = Post_not_found | No_object_matches

datatype route = Login | Blog_index | Blog_post_detail nat | Blog_profile string

datatype template_context =
    Index_ctx "row page"
  | Category_ctx category "row page"
  | Detail_ctx post "comment form" "comment list"
  | Post_form_ctx "post form"
  | Comment_form_ctx comment "comment form"
  | Comment_ctx comment
  | Profile_ctx user "row page"
  | User_form_ctx "user form"

text \<open>\<open>ServerError\<close> is an exception no view catches (HTTP 500).\<close>

datatype response =
    Http404 not_found
  | ServerError
  | Redirect route
  | Render string template_context

datatype get_error = DoesNotExist | MultipleObjectsReturned

text \<open>\<^verbatim>\<open>QuerySet.get\<close>: exactly one row must match.\<close>

definition objects_get :: "('a \<Rightarrow> bool) \<Rightarrow> 'a list \<Rightarrow> get_error + 'a" where
  "objects_get P table =
     (case filter P table of
        [] \<Rightarrow> Inl DoesNotExist
      | [x] \<Rightarrow> Inr x
      | x # y # zs \<Rightarrow> Inl MultipleObjectsReturned)"

definition get_object_or_404 :: "('a \<Rightarrow> bool) \<Rightarrow> 'a list \<Rightarrow> response + 'a" where
  "get_object_or_404 P table =
     (case objects_get P table of
        Inl DoesNotExist \<Rightarrow> Inl (Http404 No_object_matches)
      | Inl MultipleObjectsReturned \<Rightarrow> Inl ServerError
      | Inr x \<Rightarrow> Inr x)"

text \<open>\<^verbatim>\<open>request.user != u\<close> for a stored user with primary key \<open>uid\<close>.\<close>

definition user_differs :: "request \<Rightarrow> nat \<Rightarrow> bool" where
  "user_differs request uid = (map_option user_id (req_user request) \<noteq> Some uid)"

definition render_page ::
  "paginator_error + row page \<Rightarrow> string \<Rightarrow> (row page \<Rightarrow> template_context) \<Rightarrow> response" where
  "render_page pg template ctx =
     (case pg of Inl e \<Rightarrow> ServerError | Inr page_obj \<Rightarrow> Render template (ctx page_obj))"

subsection \<open>Listing views\<close>

text \<open>The queryset \<^verbatim>\<open>posts\<close> of \<^verbatim>\<open>index\<close>.\<close>

definition index_posts :: "db \<Rightarrow> int \<Rightarrow> row list" where
  "index_posts d now =
     order_by_pub_date_desc (annotate_comment_count d (get_filtered_posts_qs d now))"

definition index :: "(string \<Rightarrow> int option) \<Rightarrow> db \<Rightarrow> int \<Rightarrow> request \<Rightarrow> response" where
  "index int_conv d now request =
     render_page
       (get_paginated_page int_conv request (index_posts d now) NUMBER_OF_PAGINATOR_PAGES)
       ''blog/index.html'' Index_ctx"

text \<open>The queryset \<^verbatim>\<open>posts\<close> of \<^verbatim>\<open>category_posts\<close>: it is not annotated.\<close>

definition category_posts_qs :: "db \<Rightarrow> int \<Rightarrow> category \<Rightarrow> row list" where
  "category_posts_qs d now c =
     filter_qs d [Category_eq (cat_id c)] (order_by_pub_date_desc (get_filtered_posts_qs d now))"

definition category_posts ::
  "(string \<Rightarrow> int option) \<Rightarrow> db \<Rightarrow> int \<Rightarrow> request \<Rightarrow> string \<Rightarrow> response" where
  "category_posts int_conv d now request category_slug =
     (case get_object_or_404 (\<lambda>c. slug c = category_slug \<and> cat_is_published c = True)
             (categories d) of
        Inl r \<Rightarrow> r
      | Inr c \<Rightarrow>
          render_page
            (get_paginated_page int_conv request (category_posts_qs d now c)
               NUMBER_OF_PAGINATOR_PAGES)
            ''blog/post_list.html'' (Category_ctx c))"

definition post_detail :: "db \<Rightarrow> request \<Rightarrow> nat \<Rightarrow> response" where
  "post_detail d request pid =
     (case objects_get (\<lambda>p. post_id p = pid) (posts d) of
        Inl DoesNotExist \<Rightarrow> Http404 Post_not_found
      | Inl MultipleObjectsReturned \<Rightarrow> ServerError
      | Inr p \<Rightarrow>
          if \<not> is_published p \<and> user_differs request (author p)
          then Http404 Post_not_found
          else Render ''blog/post_detail.html''
                 (Detail_ctx p (Form (or_None (req_POST request)) None None)
                    (filter (\<lambda>c. comment_post c = post_id p) (comments d))))"

text \<open>The queryset \<^verbatim>\<open>posts\<close> of \<^verbatim>\<open>profile\<close>.\<close>

definition profile_posts :: "db \<Rightarrow> int \<Rightarrow> request \<Rightarrow> user \<Rightarrow> row list" where
  "profile_posts d now request u =
     (if user_differs request (user_id u)
      then order_by_pub_date_desc
             (annotate_comment_count d
                (filter_qs d [Author_eq (user_id u)] (get_filtered_posts_qs d now)))
      else get_posts d [Author_eq (user_id u)])"

definition profile ::
  "(string \<Rightarrow> int option) \<Rightarrow> db \<Rightarrow> int \<Rightarrow> request \<Rightarrow> string \<Rightarrow> response" where
  "profile int_conv d now request uname =
     (case get_object_or_404 (\<lambda>u. username u = uname) (users d) of
        Inl r \<Rightarrow> r
      | Inr u \<Rightarrow>
          render_page
            (get_paginated_page int_conv request (profile_posts d now request u)
               NUMBER_OF_PAGINATOR_PAGES)
            ''blog/profile.html'' (Profile_ctx u))"

subsection \<open>Mutating views\<close>

text \<open>
  Saving an instance that has no primary key inserts a row under the next key of the
  table's sequence; saving one that has a key rewrites the row of that key. A form never
  edits the primary key.
\<close>

definition insert_post :: "post \<Rightarrow> db \<Rightarrow> db" where
  "insert_post p d =
     d\<lparr>posts := posts d @ [p\<lparr>post_id := Suc (post_id_seq d)\<rparr>],
       post_id_seq := Suc (post_id_seq d)\<rparr>"

definition update_post :: "nat \<Rightarrow> post \<Rightarrow> db \<Rightarrow> db" where
  "update_post pid p d =
     d\<lparr>posts := map (\<lambda>q. if post_id q = pid then p\<lparr>post_id := pid\<rparr> else q) (posts d)\<rparr>"

text \<open>
  Modelled from the spec: the deletion of a post takes its comments with it (the
  \<^verbatim>\<open>on_delete\<close> of \<^verbatim>\<open>blog/models.py\<close>, which is not among the sources).
\<close>

definition remove_post :: "nat \<Rightarrow> db \<Rightarrow> db" where
  "remove_post pid d =
     d\<lparr>posts := filter (\<lambda>q. post_id q \<noteq> pid) (posts d),
       comments := filter (\<lambda>c. comment_post c \<noteq> pid) (comments d)\<rparr>"

definition insert_comment :: "comment \<Rightarrow> db \<Rightarrow> db" where
  "insert_comment c d =
     d\<lparr>comments := comments d @ [c\<lparr>comment_id := Suc (comment_id_seq d)\<rparr>],
       comment_id_seq := Suc (comment_id_seq d)\<rparr>"

definition update_comment :: "nat \<Rightarrow> comment \<Rightarrow> db \<Rightarrow> db" where
  "update_comment cid c d =
     d\<lparr>comments := map (\<lambda>q. if comment_id q = cid then c\<lparr>comment_id := cid\<rparr> else q)
                     (comments d)\<rparr>"

definition remove_comment :: "nat \<Rightarrow> db \<Rightarrow> db" where
  "remove_comment cid d = d\<lparr>comments := filter (\<lambda>q. comment_id q \<noteq> cid) (comments d)\<rparr>"

definition update_user :: "nat \<Rightarrow> user \<Rightarrow> db \<Rightarrow> db" where
  "update_user uid u d =
     d\<lparr>users := map (\<lambda>q. if user_id q = uid then u\<lparr>user_id := uid\<rparr> else q) (users d)\<rparr>"

text \<open>\<^verbatim>\<open>@login_required\<close>: the anonymous user is sent to the login page.\<close>

definition login_required ::
  "(user \<Rightarrow> response \<times> db) \<Rightarrow> db \<Rightarrow> request \<Rightarrow> response \<times> db" where
  "login_required view d request =
     (case req_user request of None \<Rightarrow> (Redirect Login, d) | Some u \<Rightarrow> view u)"

definition create_post :: "forms \<Rightarrow> db \<Rightarrow> request \<Rightarrow> response \<times> db" where
  "create_post F d request =
     login_required (\<lambda>u.
       let form = Form (or_None (req_POST request)) (or_None (req_FILES request)) None in
       (case PostForm_cleaned F form of
          Some p \<Rightarrow> (Redirect (Blog_profile (username u)), insert_post (p\<lparr>author := user_id u\<rparr>) d)
        | None \<Rightarrow> (Render ''blog/create.html'' (Post_form_ctx form), d))) d request"

definition edit_post :: "forms \<Rightarrow> db \<Rightarrow> request \<Rightarrow> nat \<Rightarrow> response \<times> db" where
  "edit_post F d request pid =
     login_required (\<lambda>u.
       case get_object_or_404 (\<lambda>p. post_id p = pid) (posts d) of
         Inl r \<Rightarrow> (r, d)
       | Inr p \<Rightarrow>
           if user_differs request (author p) then (Redirect (Blog_post_detail pid), d)
           else
             let form = Form (or_None (req_POST request)) None (Some p) in
             (case PostForm_cleaned F form of
                Some p' \<Rightarrow> (Redirect (Blog_post_detail pid), update_post (post_id p) p' d)
              | None \<Rightarrow> (Render ''blog/create.html'' (Post_form_ctx form), d))) d request"

definition delete_post :: "db \<Rightarrow> request \<Rightarrow> nat \<Rightarrow> response \<times> db" where
  "delete_post d request pid =
     login_required (\<lambda>u.
       case get_object_or_404 (\<lambda>p. post_id p = pid) (posts d) of
         Inl r \<Rightarrow> (r, d)
       | Inr p \<Rightarrow>
           if user_differs request (author p) then (Redirect (Blog_post_detail pid), d)
           else
             let form = Form (or_None (req_POST request)) None (Some p) in
             if req_method request = ''POST''
             then (Redirect Blog_index, remove_post (post_id p) d)
             else (Render ''blog/create.html'' (Post_form_ctx form), d)) d request"

definition add_comment :: "forms \<Rightarrow> db \<Rightarrow> request \<Rightarrow> nat \<Rightarrow> response \<times> db" where
  "add_comment F d request pid =
     login_required (\<lambda>u.
       case get_object_or_404 (\<lambda>p. post_id p = pid) (posts d) of
         Inl r \<Rightarrow> (r, d)
       | Inr p \<Rightarrow>
           let form = Form (or_None (req_POST request)) None None in
           (Redirect (Blog_post_detail pid),
            case CommentForm_cleaned F form of
              Some c \<Rightarrow> insert_comment (c\<lparr>comment_author := user_id u, comment_post := post_id p\<rparr>) d
            | None \<Rightarrow> d)) d request"

definition edit_comment :: "forms \<Rightarrow> db \<Rightarrow> request \<Rightarrow> nat \<Rightarrow> nat \<Rightarrow> response \<times> db" where
  "edit_comment F d request pid cid =
     login_required (\<lambda>u.
       case get_object_or_404 (\<lambda>c. comment_id c = cid) (comments d) of
         Inl r \<Rightarrow> (r, d)
       | Inr c \<Rightarrow>
           if user_differs request (comment_author c) then (Redirect (Blog_post_detail pid), d)
           else
             let form = Form (or_None (req_POST request)) None (Some c) in
             (case CommentForm_cleaned F form of
                Some c' \<Rightarrow> (Redirect (Blog_post_detail pid), update_comment (comment_id c) c' d)
              | None \<Rightarrow> (Render ''blog/comment.html'' (Comment_form_ctx c form), d))) d request"

definition delete_comment :: "db \<Rightarrow> request \<Rightarrow> nat \<Rightarrow> nat \<Rightarrow> response \<times> db" where
  "delete_comment d request pid cid =
     login_required (\<lambda>u.
       case get_object_or_404 (\<lambda>c. comment_id c = cid) (comments d) of
         Inl r \<Rightarrow> (r, d)
       | Inr c \<Rightarrow>
           if user_differs request (comment_author c) then (Redirect (Blog_post_detail pid), d)
           else if req_method request = ''POST''
           then (Redirect (Blog_post_detail pid), remove_comment (comment_id c) d)
           else (Render ''blog/comment.html'' (Comment_ctx c), d)) d request"

definition edit_profile :: "forms \<Rightarrow> db \<Rightarrow> request \<Rightarrow> response \<times> db" where
  "edit_profile F d request =
     login_required (\<lambda>u.
       case get_object_or_404 (\<lambda>q. username q = username u) (users d) of
         Inl r \<Rightarrow> (r, d)
       | Inr p \<Rightarrow>
           let form = Form (or_None (req_POST request)) None (Some p) in
           (case UserForm_cleaned F form of
              Some p' \<Rightarrow> (Redirect (Blog_profile (username u)), update_user (user_id p) p' d)
            | None \<Rightarrow> (Render ''blog/user.html'' (User_form_ctx form), d))) d request"

subsection \<open>Example data\<close>

text \<open>
  A small database and a few requests, on which the theorems below are instantiated: two
  users, a published and an unpublished category, and posts that fail the public
  visibility test each in one way. The time of the request is 200.
\<close>

definition alice :: user where "alice = \<lparr>user_id = 1, username = ''alice''\<rparr>"
definition bob :: user where "bob = \<lparr>user_id = 2, username = ''bob''\<rparr>"

definition travel :: category where
  "travel = \<lparr>cat_id = 1, slug = ''travel'', cat_is_published = True\<rparr>"
definition news :: category where
  "news = \<lparr>cat_id = 2, slug = ''news'', cat_is_published = False\<rparr>"

definition post_public :: post where
  "post_public = \<lparr>post_id = 1, title = ''Public'', post_text = ''a'', pub_date = 100,
     is_published = True, author = 1, post_category = Some 1, location = None\<rparr>"
definition post_future :: post where
  "post_future = \<lparr>post_id = 2, title = ''Future'', post_text = ''b'', pub_date = 500,
     is_published = True, author = 1, post_category = Some 1, location = None\<rparr>"
definition post_draft :: post where
  "post_draft = \<lparr>post_id = 3, title = ''Draft'', post_text = ''c'', pub_date = 50,
     is_published = False, author = 1, post_category = Some 1, location = None\<rparr>"
definition post_hidden_cat :: post where
  "post_hidden_cat = \<lparr>post_id = 4, title = ''Hidden'', post_text = ''d'', pub_date = 60,
     is_published = True, author = 1, post_category = Some 2, location = None\<rparr>"
definition post_bob :: post where
  "post_bob = \<lparr>post_id = 5, title = ''Bob'', post_text = ''e'', pub_date = 100,
     is_published = True, author = 2, post_category = Some 1, location = None\<rparr>"

definition comment_bob :: comment where
  "comment_bob = \<lparr>comment_id = 1, comment_text = ''hi'', comment_author = 2, comment_post = 1\<rparr>"

definition example_db :: db where
  "example_db = \<lparr>users = [alice, bob], categories = [travel, news],
     posts = [post_public, post_future, post_draft, post_hidden_cat, post_bob],
     comments = [comment_bob], post_id_seq = 5, comment_id_seq = 1\<rparr>"

definition example_now :: int where "example_now = 200"

definition example_int :: "string \<Rightarrow> int option" where
  "example_int s = (if s = ''999'' then Some 999 else if s = ''1'' then Some 1 else None)"

definition anonymous_get :: request where
  "anonymous_get = \<lparr>req_user = None, req_method = ''GET'', req_GET = [], req_POST = [],
     req_FILES = []\<rparr>"

definition anonymous_page_999 :: request where
  "anonymous_page_999 = anonymous_get\<lparr>req_GET := [(''page'', ''999'')]\<rparr>"

definition anonymous_page_abc :: request where
  "anonymous_page_abc = anonymous_get\<lparr>req_GET := [(''page'', ''abc'')]\<rparr>"

definition alice_get :: request where
  "alice_get = anonymous_get\<lparr>req_user := Some alice\<rparr>"

lemmas example_defs = alice_def bob_def travel_def news_def post_public_def post_future_def
  post_draft_def post_hidden_cat_def post_bob_def comment_bob_def example_db_def
  example_now_def example_int_def anonymous_get_def anonymous_page_999_def
  anonymous_page_abc_def alice_get_def

definition blank_post :: post where
  "blank_post = \<lparr>post_id = 0, title = '''', post_text = '''', pub_date = 0,
     is_published = True, author = 0, post_category = None, location = None\<rparr>"

definition blank_comment :: comment where
  "blank_comment = \<lparr>comment_id = 0, comment_text = '''', comment_author = 0, comment_post = 0\<rparr>"

definition example_forms :: forms where
  "example_forms =
     \<lparr>PostForm_clean = (\<lambda>data files inst.
         case map_of data ''title'' of
           None \<Rightarrow> None
         | Some t \<Rightarrow> if t = [] then None
                     else Some ((case inst of None \<Rightarrow> blank_post | Some p \<Rightarrow> p)\<lparr>title := t\<rparr>)),
       CommentForm_clean = (\<lambda>data inst.
         case map_of data ''text'' of
           None \<Rightarrow> None
         | Some t \<Rightarrow> if t = [] then None
                     else Some ((case inst of None \<Rightarrow> blank_comment | Some c \<Rightarrow> c)
                                  \<lparr>comment_text := t\<rparr>)),
       UserForm_clean = (\<lambda>data inst.
         case map_of data ''username'' of
           None \<Rightarrow> None
         | Some t \<Rightarrow> if t = [] then None
                     else Some ((case inst of None \<Rightarrow> \<lparr>user_id = 0, username = ''''\<rparr> | Some u \<Rightarrow> u)
                                  \<lparr>username := t\<rparr>))\<rparr>"

definition alice_post_empty :: request where
  "alice_post_empty = \<lparr>req_user = Some alice, req_method = ''POST'', req_GET = [],
     req_POST = [(''title'', ''''), (''text'', ''''), (''username'', '''')], req_FILES = []\<rparr>"

definition bob_post_empty :: request where
  "bob_post_empty = alice_post_empty\<lparr>req_user := Some bob\<rparr>"

definition bob_post_text :: request where
  "bob_post_text = bob_post_empty\<lparr>req_POST := [(''title'', ''New''), (''text'', ''edited'')]\<rparr>"

definition alice_post_text :: request where
  "alice_post_text = bob_post_text\<lparr>req_user := Some alice\<rparr>"

lemmas request_defs = blank_post_def blank_comment_def example_forms_def alice_post_empty_def
  bob_post_empty_def bob_post_text_def alice_post_text_def

subsection \<open>Lookups\<close>

lemma filter_key_unique:
  "distinct (map f xs) \<Longrightarrow> x \<in> set xs \<Longrightarrow> filter (\<lambda>y. f y = f x) xs = [x]"
proof (induction xs)
  case Nil
  then show ?case by simp
next
  case (Cons a xs)
  show ?case
  proof (cases "a = x")
    case True
    have "filter (\<lambda>y. f y = f x) xs = []"
      using Cons.prems(1) True by (auto simp: filter_empty_conv image_iff)
    then show ?thesis using True by simp
  next
    case False
    then have "x \<in> set xs" using Cons.prems(2) by simp
    moreover have "f a \<noteq> f x" using Cons.prems(1) \<open>x \<in> set xs\<close> by (auto simp: image_iff)
    ultimately show ?thesis using Cons by simp
  qed
qed

lemma objects_get_unique:
  "distinct (map f xs) \<Longrightarrow> x \<in> set xs \<Longrightarrow> objects_get (\<lambda>y. f y = f x) xs = Inr x"
  by (simp add: objects_get_def filter_key_unique)

lemma objects_get_none:
  "\<not> (\<exists>y\<in>set xs. P y) \<Longrightarrow> objects_get P xs = Inl DoesNotExist"
proof -
  assume "\<not> (\<exists>y\<in>set xs. P y)"
  then have "filter P xs = []" by (simp add: filter_empty_conv)
  then show ?thesis by (simp add: objects_get_def)
qed

lemma get_object_or_404_unique:
  "distinct (map f xs) \<Longrightarrow> x \<in> set xs \<Longrightarrow> get_object_or_404 (\<lambda>y. f y = f x) xs = Inr x"
  by (simp add: get_object_or_404_def objects_get_unique)

lemma get_object_or_404_none:
  "\<not> (\<exists>y\<in>set xs. P y) \<Longrightarrow> get_object_or_404 P xs = Inl (Http404 No_object_matches)"
  by (simp add: get_object_or_404_def objects_get_none)

lemma example_distinct:
  "distinct (map post_id (posts example_db))" "distinct (map comment_id (comments example_db))"
  "distinct (map username (users example_db))" "distinct (map slug (categories example_db))"
  by (simp_all add: example_defs)

lemma example_members:
  "post_public \<in> set (posts example_db)" "post_draft \<in> set (posts example_db)"
  "comment_bob \<in> set (comments example_db)" "alice \<in> set (users example_db)"
  "travel \<in> set (categories example_db)" "news \<in> set (categories example_db)"
  by (simp_all add: example_db_def)

subsection \<open>The query layer\<close>

lemma map_fst_annotate: "map fst (annotate_comment_count d rows) = map fst rows"
  by (simp add: annotate_comment_count_def comp_def)

lemma map_fst_filter_qs:
  "map fst (filter_qs d kwargs rows) =
     filter (\<lambda>p. list_all (\<lambda>k. lookup_holds d k p) kwargs) (map fst rows)"
  by (simp add: filter_qs_def filter_map comp_def)

lemma map_fst_Post_objects: "map fst (Post_objects d) = posts d"
  by (simp add: Post_objects_def comp_def)

lemma mset_order_by: "mset (order_by_pub_date_desc rows) = mset rows"
  by (simp add: order_by_pub_date_desc_def)

lemma mset_map_fst_order_by:
  "mset (map fst (order_by_pub_date_desc rows)) = mset (map fst rows)"
  by (metis mset_map mset_order_by)

lemma sorted_order_by:
  "sorted_wrt (\<lambda>a b. pub_date (fst b) \<le> pub_date (fst a)) (order_by_pub_date_desc rows)"
proof -
  have "sorted (map (\<lambda>r. - pub_date (fst r)) (order_by_pub_date_desc rows))"
    unfolding order_by_pub_date_desc_def by (rule sorted_sort_key)
  then show ?thesis by (simp add: sorted_map)
qed

lemma sorted_filter_qs:
  "sorted_wrt (\<lambda>a b. pub_date (fst b) \<le> pub_date (fst a)) rows \<Longrightarrow>
   sorted_wrt (\<lambda>a b. pub_date (fst b) \<le> pub_date (fst a)) (filter_qs d kwargs rows)"
  by (simp add: filter_qs_def sorted_wrt_filter)

lemma map_fst_get_filtered_posts_qs:
  "map fst (get_filtered_posts_qs d now) =
     filter (\<lambda>p. is_published p \<and> lookup_holds d (Category__is_published True) p \<and> pub_date p \<le> now)
       (posts d)"
  by (simp add: get_filtered_posts_qs_def map_fst_filter_qs map_fst_Post_objects)

lemma category_published_iff:
  "lookup_holds d (Category__is_published True) p \<longleftrightarrow>
     (\<exists>c\<in>set (categories d). post_category p = Some (cat_id c) \<and> cat_is_published c)"
  by (auto simp: list_ex_iff split: option.splits)

lemma mset_fst_get_posts:
  "mset (map fst (get_posts d kwargs)) =
     mset (filter (\<lambda>p. list_all (\<lambda>k. lookup_holds d k p) kwargs) (posts d))"
  unfolding get_posts_def
  by (simp only: mset_map_fst_order_by map_fst_filter_qs map_fst_annotate map_fst_Post_objects)

lemma mset_fst_public_author:
  "mset (map fst (order_by_pub_date_desc (annotate_comment_count d
       (filter_qs d [Author_eq uid] (get_filtered_posts_qs d now))))) =
   mset (filter (\<lambda>p. author p = uid \<and> is_published p \<and>
            (\<exists>c\<in>set (categories d). post_category p = Some (cat_id c) \<and> cat_is_published c) \<and>
            pub_date p \<le> now) (posts d))"
proof -
  have "map fst (filter_qs d [Author_eq uid] (get_filtered_posts_qs d now)) =
      filter (\<lambda>p. author p = uid \<and> is_published p \<and>
            (\<exists>c\<in>set (categories d). post_category p = Some (cat_id c) \<and> cat_is_published c) \<and>
            pub_date p \<le> now) (posts d)"
    by (simp add: map_fst_filter_qs map_fst_get_filtered_posts_qs category_published_iff
        del: lookup_holds.simps(2)) (rule filter_cong, auto)
  then show ?thesis
    by (simp only: mset_map_fst_order_by map_fst_annotate)
qed

lemma mset_fst_category_posts_qs:
  "mset (map fst (category_posts_qs d now c)) =
   mset (filter (\<lambda>p. post_category p = Some (cat_id c) \<and> is_published p \<and>
            (\<exists>c'\<in>set (categories d). post_category p = Some (cat_id c') \<and> cat_is_published c') \<and>
            pub_date p \<le> now) (posts d))"
proof -
  have l: "filter (\<lambda>p. post_category p = Some (cat_id c)) (map fst (get_filtered_posts_qs d now)) =
      filter (\<lambda>p. post_category p = Some (cat_id c) \<and> is_published p \<and>
            (\<exists>c'\<in>set (categories d). post_category p = Some (cat_id c') \<and> cat_is_published c') \<and>
            pub_date p \<le> now) (posts d)"
    by (simp add: map_fst_get_filtered_posts_qs category_published_iff
        del: lookup_holds.simps(2)) (rule filter_cong, auto)
  have "mset (map fst (category_posts_qs d now c)) =
      mset (filter (\<lambda>p. post_category p = Some (cat_id c))
              (map fst (order_by_pub_date_desc (get_filtered_posts_qs d now))))"
    by (simp add: category_posts_qs_def map_fst_filter_qs)
  also have "\<dots> = filter_mset (\<lambda>p. post_category p = Some (cat_id c))
      (mset (map fst (order_by_pub_date_desc (get_filtered_posts_qs d now))))"
    by (simp only: mset_filter)
  also have "\<dots> = filter_mset (\<lambda>p. post_category p = Some (cat_id c))
      (mset (map fst (get_filtered_posts_qs d now)))"
    by (simp only: mset_map_fst_order_by)
  also have "\<dots> = mset (filter (\<lambda>p. post_category p = Some (cat_id c))
      (map fst (get_filtered_posts_qs d now)))"
    by (simp only: mset_filter)
  also have "\<dots> = mset (filter (\<lambda>p. post_category p = Some (cat_id c) \<and> is_published p \<and>
            (\<exists>c'\<in>set (categories d). post_category p = Some (cat_id c') \<and> cat_is_published c') \<and>
            pub_date p \<le> now) (posts d))"
    by (simp only: l)
  finally show ?thesis .
qed

subsection \<open>The paginator\<close>

lemma num_pages_pos:
  assumes "0 < per_page pg"
  shows "num_pages pg = Inr (int ((max 1 (length (pg_object_list pg)) + per_page pg - 1) div per_page pg))"
    and "1 \<le> (max 1 (length (pg_object_list pg)) + per_page pg - 1) div per_page pg"
proof -
  show "num_pages pg = Inr (int ((max 1 (length (pg_object_list pg)) + per_page pg - 1) div per_page pg))"
    using assms by (simp add: num_pages_def Let_def)
  have "per_page pg \<le> max 1 (length (pg_object_list pg)) + per_page pg - 1" by simp
  then have "per_page pg div per_page pg \<le> (max 1 (length (pg_object_list pg)) + per_page pg - 1) div per_page pg"
    by (rule div_le_mono)
  then show "1 \<le> (max 1 (length (pg_object_list pg)) + per_page pg - 1) div per_page pg"
    using assms by simp
qed

lemma page_of_valid:
  assumes "0 < per_page pg" and "1 \<le> n"
    and "n \<le> int ((max 1 (length (pg_object_list pg)) + per_page pg - 1) div per_page pg)"
  shows "page_of I pg (PyInt n) =
     Inr \<lparr>object_list = take (per_page pg) (drop (nat (n - 1) * per_page pg) (pg_object_list pg)),
          number = n, page_paginator = pg\<rparr>"
  using assms
  by (simp add: page_of_def validate_number_def num_pages_pos(1) Let_def)

lemma get_page_eq:
  fixes I :: "string \<Rightarrow> int option" and a :: page_arg and pg :: "'a paginator"
  assumes "0 < per_page pg"
  defines "np \<equiv> int ((max 1 (length (pg_object_list pg)) + per_page pg - 1) div per_page pg)"
  defines "n \<equiv> (case (case a of PyNone \<Rightarrow> None | PyStr s \<Rightarrow> I s | PyInt n \<Rightarrow> Some n) of
                   None \<Rightarrow> 1 | Some m \<Rightarrow> if m < 1 \<or> np < m then np else m)"
  shows "get_page I pg a =
     Inr \<lparr>object_list = take (per_page pg) (drop (nat (n - 1) * per_page pg) (pg_object_list pg)),
          number = n, page_paginator = pg\<rparr>"
proof -
  have np1: "1 \<le> np" using num_pages_pos(2)[OF assms(1)] by (simp add: np_def)
  have np: "num_pages pg = Inr np" using num_pages_pos(1)[OF assms(1)] by (simp add: np_def)
  have pv: "\<And>m. 1 \<le> m \<Longrightarrow> m \<le> np \<Longrightarrow> page_of I pg (PyInt m) =
     Inr \<lparr>object_list = take (per_page pg) (drop (nat (m - 1) * per_page pg) (pg_object_list pg)),
          number = m, page_paginator = pg\<rparr>"
    using page_of_valid[OF assms(1)] by (simp add: np_def)
  show ?thesis
  proof (cases "case a of PyNone \<Rightarrow> None | PyStr s \<Rightarrow> I s | PyInt n \<Rightarrow> Some n")
    case None
    then show ?thesis using np1 pv[of 1] by (simp add: get_page_def validate_number_def n_def)
  next
    case (Some m)
    then show ?thesis using np1 pv[of m] pv[of np]
      by (simp add: get_page_def validate_number_def n_def np)
  qed
qed

lemma get_paginated_page_eq:
  fixes queryset :: "'a list"
  shows "get_paginated_page I request queryset NUMBER_OF_PAGINATOR_PAGES =
     Inr \<lparr>object_list =
            take 10 (drop (nat ((case (case querydict_get (req_GET request) ''page'' of
                                         None \<Rightarrow> None | Some s \<Rightarrow> I s) of
                                    None \<Rightarrow> 1
                                  | Some m \<Rightarrow>
                                      if m < 1 \<or> int ((max 1 (length queryset) + 9) div 10) < m
                                      then int ((max 1 (length queryset) + 9) div 10) else m) - 1) * 10)
                       queryset),
          number = (case (case querydict_get (req_GET request) ''page'' of
                            None \<Rightarrow> None | Some s \<Rightarrow> I s) of
                      None \<Rightarrow> 1
                    | Some m \<Rightarrow>
                        if m < 1 \<or> int ((max 1 (length queryset) + 9) div 10) < m
                        then int ((max 1 (length queryset) + 9) div 10) else m),
          page_paginator = \<lparr>pg_object_list = queryset, per_page = 10\<rparr>\<rparr>"
proof -
  let ?pg = "\<lparr>pg_object_list = queryset, per_page = 10\<rparr>"
  have pp: "0 < per_page ?pg" by simp
  show ?thesis
  proof (cases "querydict_get (req_GET request) ''page''")
    case None
    then show ?thesis
      using get_page_eq[OF pp, where a=PyNone and I=I]
      by (simp add: get_paginated_page_def NUMBER_OF_PAGINATOR_PAGES_def)
  next
    case (Some s)
    then show ?thesis
      using get_page_eq[OF pp, where a="PyStr s" and I=I]
      by (auto simp: get_paginated_page_def NUMBER_OF_PAGINATOR_PAGES_def add.commute split: option.splits)
  qed
qed

lemma render_page_total:
  "\<exists>page_obj. get_paginated_page I request qs NUMBER_OF_PAGINATOR_PAGES = Inr page_obj \<and>
      render_page (get_paginated_page I request qs NUMBER_OF_PAGINATOR_PAGES) t ctx =
        Render t (ctx page_obj)"
  by (simp add: get_paginated_page_eq render_page_def)

subsection \<open>The public feed\<close>

text \<open>
  Claim C1. A stored post appears in the queryset that \<^verbatim>\<open>index\<close> paginates exactly when it
  is published, its category is published, and its publication date is not after the time
  of the request.
\<close>
theorem index_feed_iff:
  assumes "p \<in> set (posts d)"
  shows "p \<in> set (map fst (index_posts d now)) \<longleftrightarrow>
     is_published p \<and>
     (\<exists>c\<in>set (categories d). post_category p = Some (cat_id c) \<and> cat_is_published c) \<and>
     pub_date p \<le> now"
proof -
  have "set (map fst (index_posts d now)) = set (map fst (get_filtered_posts_qs d now))"
    unfolding index_posts_def
    by (metis mset_map_fst_order_by map_fst_annotate set_mset_mset)
  then show ?thesis
    using assms by (simp add: map_fst_get_filtered_posts_qs category_published_iff del: lookup_holds.simps set_map)
qed

theorem index_feed_iff_witness:
  "post_public \<in> set (posts example_db) \<and> post_public \<in> set (map fst (index_posts example_db example_now)) \<and>
   post_future \<in> set (posts example_db) \<and> post_future \<notin> set (map fst (index_posts example_db example_now)) \<and>
   post_draft \<in> set (posts example_db) \<and> post_draft \<notin> set (map fst (index_posts example_db example_now)) \<and>
   post_hidden_cat \<in> set (posts example_db) \<and>
   post_hidden_cat \<notin> set (map fst (index_posts example_db example_now))"
proof -
  have m: "post_public \<in> set (posts example_db)" "post_future \<in> set (posts example_db)"
    "post_draft \<in> set (posts example_db)" "post_hidden_cat \<in> set (posts example_db)"
    by (simp_all add: example_db_def)
  show ?thesis
    using m index_feed_iff[OF m(1), of example_now] index_feed_iff[OF m(2), of example_now]
      index_feed_iff[OF m(3), of example_now] index_feed_iff[OF m(4), of example_now]
    by (simp add: example_defs)
qed

subsection \<open>Visibility of a single post\<close>

text \<open>
  Claim C2. The claim asks \<^verbatim>\<open>post_detail\<close> to answer a requester who is not the author with
  404 whenever the post fails the public visibility test. The view tests \<open>is_published\<close>
  only: on the example database the anonymous user is shown the published post dated after
  the request (post 2) and the published post of the unpublished category (post 4).
\<close>
theorem post_detail_shows_hidden_posts:
  "is_published post_future \<and> example_now < pub_date post_future \<and>
   req_user anonymous_get = None \<and>
   post_detail example_db anonymous_get 2 =
     Render ''blog/post_detail.html'' (Detail_ctx post_future (Form None None None) []) \<and>
   is_published post_hidden_cat \<and> post_category post_hidden_cat = Some (cat_id news) \<and>
   \<not> cat_is_published news \<and>
   post_detail example_db anonymous_get 4 =
     Render ''blog/post_detail.html'' (Detail_ctx post_hidden_cat (Form None None None) [])"
  by (simp add: post_detail_def objects_get_def user_differs_def or_None_def example_defs)

text \<open>
  Claim C10. To a requester who is not the author, \<^verbatim>\<open>post_detail\<close> answers a request for
  an unpublished post as it answers a request for a post id that does not exist: with the
  same 404.
\<close>
theorem unpublished_indistinguishable:
  assumes "p \<in> set (posts d)" and "distinct (map post_id (posts d))"
    and "\<not> is_published p"
    and "map_option user_id (req_user request) \<noteq> Some (author p)"
    and "\<not> (\<exists>q\<in>set (posts d'). post_id q = pid')"
  shows "post_detail d request (post_id p) = post_detail d' request pid' \<and>
         post_detail d' request pid' = Http404 Post_not_found"
proof -
  have a: "objects_get (\<lambda>q. post_id q = post_id p) (posts d) = Inr p"
    using assms(1,2) by (simp add: objects_get_unique)
  have b: "objects_get (\<lambda>q. post_id q = pid') (posts d') = Inl DoesNotExist"
    using assms(5) by (rule objects_get_none)
  show ?thesis
    using assms(3,4) by (simp add: post_detail_def a b user_differs_def)
qed

theorem unpublished_indistinguishable_witness:
  "post_draft \<in> set (posts example_db) \<and> \<not> is_published post_draft \<and>
   map_option user_id (req_user anonymous_get) \<noteq> Some (author post_draft) \<and>
   \<not> (\<exists>q\<in>set (posts example_db). post_id q = 99) \<and>
   post_detail example_db anonymous_get 3 = post_detail example_db anonymous_get 99 \<and>
   post_detail example_db anonymous_get 99 = Http404 Post_not_found"
proof -
  have h: "\<not> is_published post_draft"
    "map_option user_id (req_user anonymous_get) \<noteq> Some (author post_draft)"
    "\<not> (\<exists>q\<in>set (posts example_db). post_id q = 99)"
    by (simp_all add: example_defs)
  have i: "post_id post_draft = 3" by (simp add: example_defs)
  show ?thesis
    using h i example_members(2)
      unpublished_indistinguishable[OF example_members(2) example_distinct(1) h]
    by simp
qed

subsection \<open>Requests of a user who is not the author\<close>

text \<open>
  Claim C3. For an authenticated requester who is not the author of the stored post (or
  comment), \<^verbatim>\<open>edit_post\<close>, \<^verbatim>\<open>delete_post\<close>, \<^verbatim>\<open>edit_comment\<close> and \<^verbatim>\<open>delete_comment\<close>
  return the database unchanged and redirect to the detail page of the post id of the URL.
\<close>
theorem non_author_redirected:
  assumes "req_user request = Some u"
  shows "(p \<in> set (posts d) \<and> distinct (map post_id (posts d)) \<and> author p \<noteq> user_id u \<longrightarrow>
            edit_post F d request (post_id p) = (Redirect (Blog_post_detail (post_id p)), d) \<and>
            delete_post d request (post_id p) = (Redirect (Blog_post_detail (post_id p)), d)) \<and>
         (c \<in> set (comments d) \<and> distinct (map comment_id (comments d)) \<and>
          comment_author c \<noteq> user_id u \<longrightarrow>
            edit_comment F d request pid (comment_id c) = (Redirect (Blog_post_detail pid), d) \<and>
            delete_comment d request pid (comment_id c) = (Redirect (Blog_post_detail pid), d))"
  using assms
  by (auto simp: edit_post_def delete_post_def edit_comment_def delete_comment_def
      login_required_def get_object_or_404_unique user_differs_def)

theorem non_author_redirected_witness:
  "req_user bob_post_text = Some bob \<and> post_public \<in> set (posts example_db) \<and>
   author post_public \<noteq> user_id bob \<and>
   edit_post example_forms example_db bob_post_text 1 =
     (Redirect (Blog_post_detail 1), example_db) \<and>
   delete_post example_db bob_post_text 1 = (Redirect (Blog_post_detail 1), example_db) \<and>
   req_user alice_post_text = Some alice \<and> comment_bob \<in> set (comments example_db) \<and>
   comment_author comment_bob \<noteq> user_id alice \<and>
   edit_comment example_forms example_db alice_post_text 1 1 =
     (Redirect (Blog_post_detail 1), example_db) \<and>
   delete_comment example_db alice_post_text 1 1 = (Redirect (Blog_post_detail 1), example_db)"
proof -
  have b: "req_user bob_post_text = Some bob" and a: "req_user alice_post_text = Some alice"
    by (simp_all add: request_defs)
  have i: "post_id post_public = 1" "comment_id comment_bob = 1"
    "author post_public \<noteq> user_id bob" "comment_author comment_bob \<noteq> user_id alice"
    by (simp_all add: example_defs)
  show ?thesis
    using a b i example_distinct(1,2) example_members(1,3)
      non_author_redirected[OF b, of post_public example_db example_forms comment_bob 1]
      non_author_redirected[OF a, of post_public example_db example_forms comment_bob 1]
    by simp
qed

subsection \<open>The profile page\<close>

text \<open>
  Claim C4. The profile page of a stored user is rendered from the queryset
  \<open>profile_posts\<close>, which holds every post of that user when the requester is the user,
  and exactly the publicly visible posts of that user when the requester is anyone else.
\<close>
theorem profile_listing:
  assumes "u \<in> set (users d)" and "distinct (map username (users d))"
  shows "(\<exists>page_obj.
            get_paginated_page I request (profile_posts d now request u)
              NUMBER_OF_PAGINATOR_PAGES = Inr page_obj \<and>
            profile I d now request (username u) =
              Render ''blog/profile.html'' (Profile_ctx u page_obj)) \<and>
         (map_option user_id (req_user request) = Some (user_id u) \<longrightarrow>
            mset (map fst (profile_posts d now request u)) =
              mset (filter (\<lambda>p. author p = user_id u) (posts d))) \<and>
         (map_option user_id (req_user request) \<noteq> Some (user_id u) \<longrightarrow>
            mset (map fst (profile_posts d now request u)) =
              mset (filter (\<lambda>p. author p = user_id u \<and> is_published p \<and>
                      (\<exists>c\<in>set (categories d).
                          post_category p = Some (cat_id c) \<and> cat_is_published c) \<and>
                      pub_date p \<le> now) (posts d)))"
proof -
  have "get_object_or_404 (\<lambda>q. username q = username u) (users d) = Inr u"
    using assms by (simp add: get_object_or_404_def objects_get_unique)
  then have "profile I d now request (username u) =
      render_page (get_paginated_page I request (profile_posts d now request u)
         NUMBER_OF_PAGINATOR_PAGES) ''blog/profile.html'' (Profile_ctx u)"
    by (simp add: profile_def)
  then have a: "\<exists>page_obj.
            get_paginated_page I request (profile_posts d now request u)
              NUMBER_OF_PAGINATOR_PAGES = Inr page_obj \<and>
            profile I d now request (username u) =
              Render ''blog/profile.html'' (Profile_ctx u page_obj)"
    using render_page_total[of I request "profile_posts d now request u" "''blog/profile.html''"
        "Profile_ctx u"] by simp
  have b: "mset (map fst (profile_posts d now request u)) =
              mset (filter (\<lambda>p. author p = user_id u) (posts d))"
    if "map_option user_id (req_user request) = Some (user_id u)"
  proof -
    have "profile_posts d now request u = get_posts d [Author_eq (user_id u)]"
      using that by (simp add: profile_posts_def user_differs_def)
    then show ?thesis
      using mset_fst_get_posts[of d "[Author_eq (user_id u)]"] by simp
  qed
  have c: "mset (map fst (profile_posts d now request u)) =
              mset (filter (\<lambda>p. author p = user_id u \<and> is_published p \<and>
                      (\<exists>c\<in>set (categories d).
                          post_category p = Some (cat_id c) \<and> cat_is_published c) \<and>
                      pub_date p \<le> now) (posts d))"
    if "map_option user_id (req_user request) \<noteq> Some (user_id u)"
  proof -
    have "profile_posts d now request u =
        order_by_pub_date_desc (annotate_comment_count d
          (filter_qs d [Author_eq (user_id u)] (get_filtered_posts_qs d now)))"
      using that by (simp add: profile_posts_def user_differs_def)
    then show ?thesis
      by (simp only: mset_fst_public_author)
  qed
  from a b c show ?thesis by blast
qed

theorem profile_listing_witness:
  "alice \<in> set (users example_db) \<and>
   map_option user_id (req_user alice_get) = Some (user_id alice) \<and>
   mset (map fst (profile_posts example_db example_now alice_get alice)) =
     mset [post_public, post_future, post_draft, post_hidden_cat] \<and>
   map_option user_id (req_user anonymous_get) \<noteq> Some (user_id alice) \<and>
   mset (map fst (profile_posts example_db example_now anonymous_get alice)) = mset [post_public] \<and>
   (\<exists>page_obj. profile example_int example_db example_now anonymous_get ''alice'' =
      Render ''blog/profile.html'' (Profile_ctx alice page_obj))"
proof -
  have h: "map_option user_id (req_user alice_get) = Some (user_id alice)"
    "map_option user_id (req_user anonymous_get) \<noteq> Some (user_id alice)"
    "username alice = ''alice''"
    by (simp_all add: example_defs)
  have f: "filter (\<lambda>p. author p = user_id alice) (posts example_db) =
      [post_public, post_future, post_draft, post_hidden_cat]"
    "filter (\<lambda>p. author p = user_id alice \<and> is_published p \<and>
        (\<exists>c\<in>set (categories example_db). post_category p = Some (cat_id c) \<and> cat_is_published c) \<and>
        pub_date p \<le> example_now) (posts example_db) = [post_public]"
    by (simp_all add: example_defs)
  show ?thesis
    using h f example_members(4)
      profile_listing[OF example_members(4) example_distinct(3),
        of example_int alice_get example_now]
      profile_listing[OF example_members(4) example_distinct(3),
        of example_int anonymous_get example_now]
    by (auto simp del: mset.simps)
qed

subsection \<open>Forms that do not validate\<close>

text \<open>
  Claim C5, as amended. With a form that does not validate, \<^verbatim>\<open>create_post\<close>,
  \<^verbatim>\<open>edit_post\<close>, \<^verbatim>\<open>edit_comment\<close> and \<^verbatim>\<open>edit_profile\<close> render their form template again
  with the form, and \<^verbatim>\<open>add_comment\<close> redirects to the detail page of the post; none of them
  changes the database.
\<close>
theorem invalid_form_no_change:
  assumes "req_user request = Some u"
  shows
    "(PostForm_cleaned F (Form (or_None (req_POST request)) (or_None (req_FILES request)) None) = None \<longrightarrow>
        create_post F d request =
          (Render ''blog/create.html''
             (Post_form_ctx (Form (or_None (req_POST request)) (or_None (req_FILES request)) None)),
           d)) \<and>
     (p \<in> set (posts d) \<and> distinct (map post_id (posts d)) \<and> author p = user_id u \<and>
      PostForm_cleaned F (Form (or_None (req_POST request)) None (Some p)) = None \<longrightarrow>
        edit_post F d request (post_id p) =
          (Render ''blog/create.html''
             (Post_form_ctx (Form (or_None (req_POST request)) None (Some p))), d)) \<and>
     (c \<in> set (comments d) \<and> distinct (map comment_id (comments d)) \<and>
      comment_author c = user_id u \<and>
      CommentForm_cleaned F (Form (or_None (req_POST request)) None (Some c)) = None \<longrightarrow>
        edit_comment F d request pid (comment_id c) =
          (Render ''blog/comment.html''
             (Comment_form_ctx c (Form (or_None (req_POST request)) None (Some c))), d)) \<and>
     (q \<in> set (users d) \<and> distinct (map username (users d)) \<and> username q = username u \<and>
      UserForm_cleaned F (Form (or_None (req_POST request)) None (Some q)) = None \<longrightarrow>
        edit_profile F d request =
          (Render ''blog/user.html''
             (User_form_ctx (Form (or_None (req_POST request)) None (Some q))), d)) \<and>
     (p' \<in> set (posts d) \<and> distinct (map post_id (posts d)) \<and>
      CommentForm_cleaned F (Form (or_None (req_POST request)) None None) = None \<longrightarrow>
        add_comment F d request (post_id p') = (Redirect (Blog_post_detail (post_id p')), d))"
proof -
  have 1: "PostForm_cleaned F (Form (or_None (req_POST request)) (or_None (req_FILES request)) None) = None \<Longrightarrow>
        create_post F d request =
          (Render ''blog/create.html''
             (Post_form_ctx (Form (or_None (req_POST request)) (or_None (req_FILES request)) None)),
           d)"
    using assms by (simp add: create_post_def login_required_def)
  have 2: "p \<in> set (posts d) \<and> distinct (map post_id (posts d)) \<and> author p = user_id u \<and>
      PostForm_cleaned F (Form (or_None (req_POST request)) None (Some p)) = None \<Longrightarrow>
        edit_post F d request (post_id p) =
          (Render ''blog/create.html''
             (Post_form_ctx (Form (or_None (req_POST request)) None (Some p))), d)"
    using assms
    by (simp add: edit_post_def login_required_def get_object_or_404_unique user_differs_def)
  have 3: "c \<in> set (comments d) \<and> distinct (map comment_id (comments d)) \<and>
      comment_author c = user_id u \<and>
      CommentForm_cleaned F (Form (or_None (req_POST request)) None (Some c)) = None \<Longrightarrow>
        edit_comment F d request pid (comment_id c) =
          (Render ''blog/comment.html''
             (Comment_form_ctx c (Form (or_None (req_POST request)) None (Some c))), d)"
    using assms
    by (simp add: edit_comment_def login_required_def get_object_or_404_unique user_differs_def)
  have 4: "q \<in> set (users d) \<and> distinct (map username (users d)) \<and> username q = username u \<and>
      UserForm_cleaned F (Form (or_None (req_POST request)) None (Some q)) = None \<Longrightarrow>
        edit_profile F d request =
          (Render ''blog/user.html''
             (User_form_ctx (Form (or_None (req_POST request)) None (Some q))), d)"
  proof -
    assume h: "q \<in> set (users d) \<and> distinct (map username (users d)) \<and> username q = username u \<and>
      UserForm_cleaned F (Form (or_None (req_POST request)) None (Some q)) = None"
    then have "get_object_or_404 (\<lambda>y. username y = username q) (users d) = Inr q"
      using get_object_or_404_unique[of username "users d" q] by blast
    then have "get_object_or_404 (\<lambda>y. username y = username u) (users d) = Inr q"
      using h by metis
    then show ?thesis
      using assms h by (simp add: edit_profile_def login_required_def)
  qed
  have 5: "p' \<in> set (posts d) \<and> distinct (map post_id (posts d)) \<and>
      CommentForm_cleaned F (Form (or_None (req_POST request)) None None) = None \<Longrightarrow>
        add_comment F d request (post_id p') = (Redirect (Blog_post_detail (post_id p')), d)"
    using assms
    by (simp add: add_comment_def login_required_def get_object_or_404_unique)
  from 1 2 3 4 5 show ?thesis by blast
qed

theorem invalid_form_no_change_witness:
  "req_user alice_post_empty = Some alice \<and>
   PostForm_cleaned example_forms
     (Form (or_None (req_POST alice_post_empty)) (or_None (req_FILES alice_post_empty)) None) =
     None \<and>
   create_post example_forms example_db alice_post_empty =
     (Render ''blog/create.html''
        (Post_form_ctx (Form (or_None (req_POST alice_post_empty))
           (or_None (req_FILES alice_post_empty)) None)), example_db) \<and>
   author post_public = user_id alice \<and>
   edit_post example_forms example_db alice_post_empty 1 =
     (Render ''blog/create.html''
        (Post_form_ctx (Form (or_None (req_POST alice_post_empty)) None (Some post_public))),
      example_db) \<and>
   edit_profile example_forms example_db alice_post_empty =
     (Render ''blog/user.html''
        (User_form_ctx (Form (or_None (req_POST alice_post_empty)) None (Some alice))),
      example_db) \<and>
   add_comment example_forms example_db alice_post_empty 1 =
     (Redirect (Blog_post_detail 1), example_db) \<and>
   req_user bob_post_empty = Some bob \<and> comment_author comment_bob = user_id bob \<and>
   edit_comment example_forms example_db bob_post_empty 1 1 =
     (Render ''blog/comment.html''
        (Comment_form_ctx comment_bob
           (Form (or_None (req_POST bob_post_empty)) None (Some comment_bob))), example_db)"
proof -
  have a: "req_user alice_post_empty = Some alice" and b: "req_user bob_post_empty = Some bob"
    by (simp_all add: request_defs)
  have i: "post_id post_public = 1" "comment_id comment_bob = 1"
    "author post_public = user_id alice" "comment_author comment_bob = user_id bob"
    by (simp_all add: example_defs)
  have f: "PostForm_cleaned example_forms
     (Form (or_None (req_POST alice_post_empty)) (or_None (req_FILES alice_post_empty)) None) =
     None"
    "PostForm_cleaned example_forms
       (Form (or_None (req_POST alice_post_empty)) None (Some post_public)) = None"
    "UserForm_cleaned example_forms
       (Form (or_None (req_POST alice_post_empty)) None (Some alice)) = None"
    "CommentForm_cleaned example_forms
       (Form (or_None (req_POST alice_post_empty)) None None) = None"
    "CommentForm_cleaned example_forms
       (Form (or_None (req_POST bob_post_empty)) None (Some comment_bob)) = None"
    by (simp_all add: PostForm_cleaned_def UserForm_cleaned_def CommentForm_cleaned_def
        is_bound_def data_of_def or_None_def request_defs)
  show ?thesis
    using a b i f example_members(1,3,4) example_distinct(1,2,3)
      invalid_form_no_change[OF a, where F = example_forms and d = example_db
        and p = post_public and q = alice and p' = post_public and c = comment_bob and pid = 1]
      invalid_form_no_change[OF b, where F = example_forms and d = example_db
        and p = post_public and q = alice and p' = post_public and c = comment_bob and pid = 1]
    by simp
qed

text \<open>
  The claim as it was stated fails for \<^verbatim>\<open>add_comment\<close>: a comment form without text does
  not validate, and the view redirects instead of rendering a form.
\<close>
theorem add_comment_invalid_redirects:
  "req_user bob_post_empty = Some bob \<and>
   CommentForm_cleaned example_forms (Form (or_None (req_POST bob_post_empty)) None None) = None \<and>
   add_comment example_forms example_db bob_post_empty 1 =
     (Redirect (Blog_post_detail 1), example_db)"
  by (simp add: add_comment_def login_required_def get_object_or_404_def objects_get_def
      CommentForm_cleaned_def is_bound_def data_of_def or_None_def example_defs request_defs)

subsection \<open>Pages\<close>

text \<open>
  Claim C6. \<^verbatim>\<open>get_paginated_page\<close> always returns a page, which holds the ten rows of its
  number; the number is 1 when \<^verbatim>\<open>page\<close> is absent or not an integer, and the number of the
  last page when \<^verbatim>\<open>page\<close> is beyond it.
\<close>
theorem get_paginated_page_fallback:
  fixes queryset :: "'a list"
  shows "\<exists>page_obj.
     get_paginated_page I request queryset NUMBER_OF_PAGINATOR_PAGES = Inr page_obj \<and>
     object_list page_obj = take 10 (drop (10 * nat (number page_obj - 1)) queryset) \<and>
     1 \<le> number page_obj \<and>
     number page_obj \<le> int ((max 1 (length queryset) + 9) div 10) \<and>
     (querydict_get (req_GET request) ''page'' = None \<longrightarrow> number page_obj = 1) \<and>
     (\<forall>s. querydict_get (req_GET request) ''page'' = Some s \<and> I s = None \<longrightarrow>
          number page_obj = 1) \<and>
     (\<forall>s n. querydict_get (req_GET request) ''page'' = Some s \<and> I s = Some n \<and>
            int ((max 1 (length queryset) + 9) div 10) < n \<longrightarrow>
          number page_obj = int ((max 1 (length queryset) + 9) div 10))"
proof -
  have "1 \<le> (max 1 (length queryset) + 9) div 10"
    using num_pages_pos(2)[of "\<lparr>pg_object_list = queryset, per_page = 10\<rparr>"] by simp
  then have np1: "1 \<le> int ((max 1 (length queryset) + 9) div 10)" by linarith
  show ?thesis
    unfolding get_paginated_page_eq using np1
    by (auto simp: mult.commute split: option.splits)
qed

theorem get_paginated_page_fallback_witness:
  "querydict_get (req_GET anonymous_get) ''page'' = None \<and>
   querydict_get (req_GET anonymous_page_abc) ''page'' = Some ''abc'' \<and>
   example_int ''abc'' = None \<and>
   querydict_get (req_GET anonymous_page_999) ''page'' = Some ''999'' \<and>
   example_int ''999'' = Some 999 \<and>
   (\<exists>page_obj. get_paginated_page example_int anonymous_get [1, 2, 3 :: nat]
        NUMBER_OF_PAGINATOR_PAGES = Inr page_obj \<and> number page_obj = 1) \<and>
   (\<exists>page_obj. get_paginated_page example_int anonymous_page_abc [1, 2, 3 :: nat]
        NUMBER_OF_PAGINATOR_PAGES = Inr page_obj \<and> number page_obj = 1) \<and>
   (\<exists>page_obj. get_paginated_page example_int anonymous_page_999 [1, 2, 3 :: nat]
        NUMBER_OF_PAGINATOR_PAGES = Inr page_obj \<and> number page_obj = 1 \<and>
        object_list page_obj = [1, 2, 3])"
proof -
  have h: "querydict_get (req_GET anonymous_get) ''page'' = None"
    "querydict_get (req_GET anonymous_page_abc) ''page'' = Some ''abc''"
    "example_int ''abc'' = None"
    "querydict_get (req_GET anonymous_page_999) ''page'' = Some ''999''"
    "example_int ''999'' = Some 999"
    by (simp_all add: example_defs querydict_get_def)
  show ?thesis
    using h
      get_paginated_page_fallback[of example_int anonymous_get "[1, 2, 3 :: nat]"]
      get_paginated_page_fallback[of example_int anonymous_page_abc "[1, 2, 3 :: nat]"]
      get_paginated_page_fallback[of example_int anonymous_page_999 "[1, 2, 3 :: nat]"]
    by auto
qed

subsection \<open>The category page\<close>

text \<open>
  Claim C7. \<^verbatim>\<open>category_posts\<close> answers 404 when no published category has the slug, in
  particular for the slug of an unpublished category; for a published category it renders
  the list from \<open>category_posts_qs\<close>, which holds exactly the publicly visible posts of
  that category.
\<close>
theorem category_posts_404:
  "(\<not> (\<exists>c\<in>set (categories d). slug c = category_slug \<and> cat_is_published c) \<longrightarrow>
      category_posts I d now request category_slug = Http404 No_object_matches) \<and>
   (c \<in> set (categories d) \<and> distinct (map slug (categories d)) \<and> \<not> cat_is_published c \<longrightarrow>
      category_posts I d now request (slug c) = Http404 No_object_matches) \<and>
   (c \<in> set (categories d) \<and> distinct (map slug (categories d)) \<and> cat_is_published c \<longrightarrow>
      (\<exists>page_obj.
         get_paginated_page I request (category_posts_qs d now c) NUMBER_OF_PAGINATOR_PAGES =
           Inr page_obj \<and>
         category_posts I d now request (slug c) =
           Render ''blog/post_list.html'' (Category_ctx c page_obj))) \<and>
   mset (map fst (category_posts_qs d now c)) =
     mset (filter (\<lambda>p. post_category p = Some (cat_id c) \<and> is_published p \<and>
              (\<exists>c'\<in>set (categories d). post_category p = Some (cat_id c') \<and> cat_is_published c') \<and>
              pub_date p \<le> now) (posts d))"
proof -
  have a: "category_posts I d now request category_slug = Http404 No_object_matches"
    if "\<not> (\<exists>c\<in>set (categories d). slug c = category_slug \<and> cat_is_published c)"
    using that get_object_or_404_none[of "categories d"
        "\<lambda>c. slug c = category_slug \<and> cat_is_published c = True"]
    by (simp add: category_posts_def)
  have f: "filter (\<lambda>y. slug y = slug c) (categories d) = [c]"
    if "c \<in> set (categories d)" "distinct (map slug (categories d))"
    using that by (simp add: filter_key_unique)
  have g: "filter (\<lambda>y. slug y = slug c \<and> cat_is_published y = True) (categories d) =
      filter cat_is_published (filter (\<lambda>y. slug y = slug c) (categories d))"
    by (simp add: conj_commute)
  have b: "category_posts I d now request (slug c) = Http404 No_object_matches"
    if "c \<in> set (categories d) \<and> distinct (map slug (categories d)) \<and> \<not> cat_is_published c"
    using that f g by (simp add: category_posts_def get_object_or_404_def objects_get_def)
  have s: "\<exists>page_obj.
         get_paginated_page I request (category_posts_qs d now c) NUMBER_OF_PAGINATOR_PAGES =
           Inr page_obj \<and>
         category_posts I d now request (slug c) =
           Render ''blog/post_list.html'' (Category_ctx c page_obj)"
    if "c \<in> set (categories d) \<and> distinct (map slug (categories d)) \<and> cat_is_published c"
  proof -
    have "get_object_or_404 (\<lambda>y. slug y = slug c \<and> cat_is_published y = True) (categories d) = Inr c"
      using that f g by (simp add: get_object_or_404_def objects_get_def)
    then have "category_posts I d now request (slug c) =
        render_page (get_paginated_page I request (category_posts_qs d now c)
          NUMBER_OF_PAGINATOR_PAGES) ''blog/post_list.html'' (Category_ctx c)"
      by (simp add: category_posts_def)
    then show ?thesis
      using render_page_total[of I request "category_posts_qs d now c" "''blog/post_list.html''"
          "Category_ctx c"] by simp
  qed
  from a b s mset_fst_category_posts_qs[of d now c] show ?thesis by blast
qed

theorem category_posts_404_witness:
  "\<not> (\<exists>c\<in>set (categories example_db). slug c = ''nope'' \<and> cat_is_published c) \<and>
   category_posts example_int example_db example_now anonymous_get ''nope'' =
     Http404 No_object_matches \<and>
   news \<in> set (categories example_db) \<and> \<not> cat_is_published news \<and>
   category_posts example_int example_db example_now anonymous_get ''news'' =
     Http404 No_object_matches \<and>
   travel \<in> set (categories example_db) \<and> cat_is_published travel \<and>
   (\<exists>page_obj. category_posts example_int example_db example_now anonymous_get ''travel'' =
      Render ''blog/post_list.html'' (Category_ctx travel page_obj)) \<and>
   mset (map fst (category_posts_qs example_db example_now travel)) =
     mset [post_public, post_bob]"
proof -
  have h: "\<not> (\<exists>c\<in>set (categories example_db). slug c = ''nope'' \<and> cat_is_published c)"
    "\<not> cat_is_published news" "cat_is_published travel"
    "slug news = ''news''" "slug travel = ''travel''"
    by (simp_all add: example_defs)
  have f: "filter (\<lambda>p. post_category p = Some (cat_id travel) \<and> is_published p \<and>
      (\<exists>c'\<in>set (categories example_db).
          post_category p = Some (cat_id c') \<and> cat_is_published c') \<and>
      pub_date p \<le> example_now) (posts example_db) = [post_public, post_bob]"
    by (simp add: example_defs)
  show ?thesis
    using h f example_members(5,6) example_distinct(4)
      category_posts_404[where d = example_db and category_slug = "''nope''" and c = news
        and I = example_int and now = example_now and request = anonymous_get]
      category_posts_404[where d = example_db and category_slug = "''nope''" and c = travel
        and I = example_int and now = example_now and request = anonymous_get]
    by (auto simp del: mset.simps)
qed

subsection \<open>Ordering\<close>

text \<open>
  Claim C8. The querysets of the index, category and profile listings and every result of
  \<^verbatim>\<open>get_posts\<close> are in descending order of publication date. The date is the only key
  of the ordering: of two rows of equal date the theorem says nothing, as \<^verbatim>\<open>ORDER BY\<close>
  promises nothing.
\<close>
theorem listings_ordered:
  "sorted_wrt (\<lambda>a b. pub_date (fst b) \<le> pub_date (fst a)) (index_posts d now) \<and>
   sorted_wrt (\<lambda>a b. pub_date (fst b) \<le> pub_date (fst a)) (category_posts_qs d now c) \<and>
   sorted_wrt (\<lambda>a b. pub_date (fst b) \<le> pub_date (fst a)) (profile_posts d now request u) \<and>
   sorted_wrt (\<lambda>a b. pub_date (fst b) \<le> pub_date (fst a)) (get_posts d kwargs)"
proof -
  have i: "sorted_wrt (\<lambda>a b. pub_date (fst b) \<le> pub_date (fst a)) (index_posts d now)"
    unfolding index_posts_def by (rule sorted_order_by)
  have c: "sorted_wrt (\<lambda>a b. pub_date (fst b) \<le> pub_date (fst a)) (category_posts_qs d now c)"
    unfolding category_posts_qs_def by (rule sorted_filter_qs) (rule sorted_order_by)
  have g: "\<And>ks. sorted_wrt (\<lambda>a b. pub_date (fst b) \<le> pub_date (fst a)) (get_posts d ks)"
    unfolding get_posts_def by (rule sorted_order_by)
  have p: "sorted_wrt (\<lambda>a b. pub_date (fst b) \<le> pub_date (fst a)) (profile_posts d now request u)"
    unfolding profile_posts_def using g sorted_order_by by simp
  from i c g p show ?thesis by blast
qed

subsection \<open>Comments and the post id of the URL\<close>

lemma map_key_unique:
  assumes "distinct (map f xs)" and "x \<in> set xs"
  shows "map (\<lambda>q. if f q = f x then g else q) xs = map (\<lambda>q. if q = x then g else q) xs"
proof (rule map_cong)
  show "xs = xs" by simp
next
  fix q assume "q \<in> set xs"
  then have "f q = f x \<longleftrightarrow> q = x"
    using assms by (auto simp: distinct_map dest: inj_onD)
  then show "(if f q = f x then g else q) = (if q = x then g else q)" by simp
qed

lemma filter_key_remove1:
  "distinct (map f xs) \<Longrightarrow> x \<in> set xs \<Longrightarrow> filter (\<lambda>y. f y \<noteq> f x) xs = remove1 x xs"
proof (induction xs)
  case Nil
  then show ?case by simp
next
  case (Cons a xs)
  show ?case
  proof (cases "a = x")
    case True
    have "filter (\<lambda>y. f y \<noteq> f x) xs = xs"
      using Cons.prems(1) True by (auto simp: filter_id_conv image_iff)
    then show ?thesis using True by simp
  next
    case False
    then have "x \<in> set xs" using Cons.prems(2) by simp
    moreover have "f a \<noteq> f x" using Cons.prems(1) \<open>x \<in> set xs\<close> by (auto simp: image_iff)
    ultimately show ?thesis using Cons False by simp
  qed
qed

lemma objects_get_after_update:
  assumes "distinct (map f xs)" and "x \<in> set xs" and "f g = f x"
  shows "objects_get (\<lambda>y. f y = f x) (map (\<lambda>q. if q = x then g else q) xs) = Inr g"
proof -
  let ?ys = "map (\<lambda>q. if q = x then g else q) xs"
  have mf: "map f ?ys = map f xs"
    unfolding map_map by (rule map_cong) (auto simp: assms(3))
  have d: "distinct (map f ?ys)"
    unfolding mf by (rule assms(1))
  have m: "g \<in> set ?ys" using assms(2) by (auto simp: image_iff)
  show ?thesis using objects_get_unique[OF d m] assms(3) by simp
qed

lemma objects_get_after_remove:
  assumes "distinct (map f xs)" and "x \<in> set xs"
  shows "objects_get (\<lambda>y. f y = f x) (remove1 x xs) = Inl DoesNotExist"
proof -
  have "\<not> (\<exists>y\<in>set (filter (\<lambda>y. f y \<noteq> f x) xs). f y = f x)" by simp
  then have "\<not> (\<exists>y\<in>set (remove1 x xs). f y = f x)"
    using filter_key_remove1[OF assms] by simp
  then show ?thesis by (rule objects_get_none)
qed

text \<open>
  Claim C9. \<^verbatim>\<open>edit_comment\<close> and \<^verbatim>\<open>delete_comment\<close> find the comment by its id alone: for
  a comment of the requester and every post id in the URL, the edit (with a valid form)
  stores the cleaned comment in place of the old one, the deletion (on POST) takes the
  comment out of the table, and both redirect to the detail page of the post id of the URL.
\<close>
theorem comment_lookup_ignores_post_id:
  assumes "req_user request = Some u" and "c \<in> set (comments d)"
    and "distinct (map comment_id (comments d))" and "comment_author c = user_id u"
  shows "(CommentForm_cleaned F (Form (or_None (req_POST request)) None (Some c)) = Some c' \<longrightarrow>
            edit_comment F d request pid (comment_id c) =
              (Redirect (Blog_post_detail pid),
               d\<lparr>comments := map (\<lambda>q. if q = c then c'\<lparr>comment_id := comment_id c\<rparr> else q)
                                (comments d)\<rparr>) \<and>
            objects_get (\<lambda>q. comment_id q = comment_id c)
              (comments (snd (edit_comment F d request pid (comment_id c)))) =
              Inr (c'\<lparr>comment_id := comment_id c\<rparr>)) \<and>
         (req_method request = ''POST'' \<longrightarrow>
            delete_comment d request pid (comment_id c) =
              (Redirect (Blog_post_detail pid), d\<lparr>comments := remove1 c (comments d)\<rparr>) \<and>
            objects_get (\<lambda>q. comment_id q = comment_id c)
              (comments (snd (delete_comment d request pid (comment_id c)))) =
              Inl DoesNotExist)"
proof -
  have e: "edit_comment F d request pid (comment_id c) =
      (Redirect (Blog_post_detail pid),
       d\<lparr>comments := map (\<lambda>q. if q = c then c'\<lparr>comment_id := comment_id c\<rparr> else q)
                        (comments d)\<rparr>)"
    if "CommentForm_cleaned F (Form (or_None (req_POST request)) None (Some c)) = Some c'"
    using that assms map_key_unique[OF assms(3,2), of "c'\<lparr>comment_id := comment_id c\<rparr>"]
    by (simp add: edit_comment_def login_required_def get_object_or_404_unique
        user_differs_def update_comment_def)
  have r: "delete_comment d request pid (comment_id c) =
      (Redirect (Blog_post_detail pid), d\<lparr>comments := remove1 c (comments d)\<rparr>)"
    if "req_method request = ''POST''"
    using that assms filter_key_remove1[OF assms(3,2)]
    by (simp add: delete_comment_def login_required_def get_object_or_404_unique
        user_differs_def remove_comment_def)
  have ge: "objects_get (\<lambda>q. comment_id q = comment_id c)
      (map (\<lambda>q. if q = c then c'\<lparr>comment_id := comment_id c\<rparr> else q) (comments d)) =
      Inr (c'\<lparr>comment_id := comment_id c\<rparr>)"
    using objects_get_after_update[OF assms(3,2), of "c'\<lparr>comment_id := comment_id c\<rparr>"]
    by simp
  have gr: "objects_get (\<lambda>q. comment_id q = comment_id c) (remove1 c (comments d)) =
      Inl DoesNotExist"
    by (rule objects_get_after_remove[OF assms(3,2)])
  show ?thesis using e r ge gr by simp
qed

theorem comment_lookup_ignores_post_id_witness:
  "comment_post comment_bob \<noteq> 5 \<and>
   CommentForm_cleaned example_forms
     (Form (or_None (req_POST bob_post_text)) None (Some comment_bob)) =
     Some (comment_bob\<lparr>comment_text := ''edited''\<rparr>) \<and>
   edit_comment example_forms example_db bob_post_text 5 1 =
     (Redirect (Blog_post_detail 5),
      example_db\<lparr>comments := [comment_bob\<lparr>comment_text := ''edited''\<rparr>]\<rparr>) \<and>
   req_method bob_post_text = ''POST'' \<and>
   delete_comment example_db bob_post_text 5 1 =
     (Redirect (Blog_post_detail 5), example_db\<lparr>comments := []\<rparr>)"
proof -
  have b: "req_user bob_post_text = Some bob" by (simp add: request_defs)
  have i: "comment_id comment_bob = 1" "comment_author comment_bob = user_id bob"
    "comment_post comment_bob \<noteq> 5" "req_method bob_post_text = ''POST''"
    by (simp_all add: example_defs request_defs)
  have f: "CommentForm_cleaned example_forms
     (Form (or_None (req_POST bob_post_text)) None (Some comment_bob)) =
     Some (comment_bob\<lparr>comment_text := ''edited''\<rparr>)"
    by (simp add: CommentForm_cleaned_def is_bound_def data_of_def or_None_def request_defs)
  have t: "comments example_db = [comment_bob]"
    "comment_bob\<lparr>comment_text := ''edited'', comment_id := 1\<rparr> =
       comment_bob\<lparr>comment_text := ''edited''\<rparr>"
    by (simp_all add: example_defs)
  show ?thesis
    using i f t
      comment_lookup_ignores_post_id[OF b example_members(3) example_distinct(2) i(2),
        of example_forms "comment_bob\<lparr>comment_text := ''edited''\<rparr>" 5]
    by simp
qed

end
